theory Spec2Isabelle
  imports Main "HOL-Library.Log_Nat"
begin

section \<open>The automatic wallpaper rotation hook (useAutoWallpaper)\<close>

text \<open>
  A shallow embedding of the scheduling hook \<^verbatim>\<open>useAutoWallpaper\<close> and of the
  declarations of \<^verbatim>\<open>@/lib/wallpaper\<close> it uses. The hook keeps two refs
  (\<^verbatim>\<open>intervalRef\<close>, \<^verbatim>\<open>isRunningRef\<close>) and exposes three operations:
  \<^verbatim>\<open>changeWallpaper\<close> (one rotation), \<^verbatim>\<open>startAutoChange\<close> (arm) and
  \<^verbatim>\<open>stopAutoChange\<close> (disarm).
\<close>

subsection \<open>Values\<close>

text \<open>
  A JavaScript \<^verbatim>\<open>number\<close> is an IEEE 754 double: a finite value, an infinity or
  \<^verbatim>\<open>NaN\<close>. A finite value is a sign (\<open>True\<close> is negative; there are two zeros) and a
  magnitude, a rational number that is either zero or \<open>m * 2 ^ q\<close> for integers
  \<open>m < 2 ^ 53\<close> and \<open>- 1074 \<le> q \<le> 971\<close>.
\<close>

datatype js_number = Finite bool rat | Infinity bool | NaN

text \<open>The \<open>e\<close> with \<open>2 ^ e \<le> r < 2 ^ (e + 1)\<close>, for a positive \<open>r\<close>.\<close>

definition floor_log2 :: "rat \<Rightarrow> int" where
  "floor_log2 r =
     (case quotient_of r of
        (p, d) \<Rightarrow> let k = bitlen p - bitlen d in if 2 powi k \<le> r then k else k - 1)"

text \<open>The nearest integer, the even one of two that are equally near.\<close>

definition round_half_even :: "rat \<Rightarrow> int" where
  "round_half_even x =
     (let f = \<lfloor>x\<rfloor>; d = x - of_int f
      in if d < 1 / 2 then f else if 1 / 2 < d then f + 1 else if even f then f else f + 1)"

text \<open>
  The double nearest to an exact magnitude (round to nearest, ties to even): 53
  significant bits, no bit below \<open>2 ^ - 1074\<close> (the subnormal numbers), and infinity
  from \<open>2 ^ 1024\<close> on.
\<close>

definition round_double :: "bool \<Rightarrow> rat \<Rightarrow> js_number" where
  "round_double s r =
     (if r = 0 then Finite s 0
      else
        let q = max (floor_log2 r - 52) (- 1074);
            v = of_int (round_half_even (r / 2 powi q)) * 2 powi q
        in if 2 ^ 1024 \<le> v then Infinity s else Finite s v)"

text \<open>The values of the datatype that are doubles: rounding leaves them as they are.\<close>

definition is_double :: "js_number \<Rightarrow> bool" where
  "is_double x =
     (case x of Finite s r \<Rightarrow> 0 \<le> r \<and> round_double s r = Finite s r | _ \<Rightarrow> True)"

text \<open>
  \<^verbatim>\<open>a * b\<close> on numbers: the exact product, rounded; the sign of the result is negative
  when the signs differ; \<^verbatim>\<open>NaN\<close> from \<^verbatim>\<open>NaN\<close> and from zero times infinity.
\<close>

fun js_mul :: "js_number \<Rightarrow> js_number \<Rightarrow> js_number" where
  "js_mul NaN _ = NaN"
| "js_mul _ NaN = NaN"
| "js_mul (Infinity s) (Infinity t) = Infinity (s \<noteq> t)"
| "js_mul (Infinity s) (Finite t b) = (if b = 0 then NaN else Infinity (s \<noteq> t))"
| "js_mul (Finite s a) (Infinity t) = (if a = 0 then NaN else Infinity (s \<noteq> t))"
| "js_mul (Finite s a) (Finite t b) = round_double (s \<noteq> t) (a * b)"

text \<open>The number an integer literal denotes: the double nearest to it.\<close>

definition js_int :: "int \<Rightarrow> js_number" where
  "js_int n = round_double (n < 0) (of_int \<bar>n\<bar>)"

text \<open>A thrown value, or the reason of a rejected promise.\<close>

datatype js_error = Thrown string

text \<open>
  \<^verbatim>\<open>a * b\<close> where \<open>b\<close> is the result of a property lookup: \<open>None\<close> is
  \<^verbatim>\<open>undefined\<close>, and \<^verbatim>\<open>ToNumber(undefined)\<close> is \<^verbatim>\<open>NaN\<close>.
\<close>

definition js_times :: "js_number \<Rightarrow> js_number option \<Rightarrow> js_number" where
  "js_times a b = (case b of None \<Rightarrow> NaN | Some b' \<Rightarrow> js_mul a b')"

subsection \<open>Interval arithmetic\<close>

text \<open>
  \<^verbatim>\<open>
  function getIntervalMs(value: number, unit: IntervalUnit): number {
    const multipliers: Record<IntervalUnit, number> = {
      minutes: 60 * 1000,
      hours: 60 * 60 * 1000,
      days: 24 * 60 * 60 * 1000,
      weeks: 7 * 24 * 60 * 60 * 1000,
    };
    return value * multipliers[unit];
  }
  \<close>
  The type \<^verbatim>\<open>IntervalUnit\<close> is erased when the program runs: the unit is a string
  (it comes from the backend through \<^verbatim>\<open>settings.interval_unit as IntervalUnit\<close>).
  The object literal is a map from its four keys; a key it does not own looks up to
  \<^verbatim>\<open>undefined\<close>, or to an object inherited from \<^verbatim>\<open>Object.prototype\<close>, and the
  product is \<^verbatim>\<open>NaN\<close> in both cases. The function has no \<^verbatim>\<open>throw\<close>: its result
  is always on the right of the sum.
\<close>

definition IntervalUnit :: "string set" where
  "IntervalUnit = {''minutes'', ''hours'', ''days'', ''weeks''}"

definition multipliers :: "string \<rightharpoonup> js_number" where
  "multipliers =
     [''minutes'' \<mapsto> js_mul (js_int 60) (js_int 1000),
      ''hours'' \<mapsto> js_mul (js_mul (js_int 60) (js_int 60)) (js_int 1000),
      ''days'' \<mapsto> js_mul (js_mul (js_mul (js_int 24) (js_int 60)) (js_int 60)) (js_int 1000),
      ''weeks'' \<mapsto>
        js_mul (js_mul (js_mul (js_mul (js_int 7) (js_int 24)) (js_int 60)) (js_int 60))
          (js_int 1000)]"

definition getIntervalMs :: "js_number \<Rightarrow> string \<Rightarrow> js_error + js_number" where
  "getIntervalMs value unit = Inr (js_times value (multipliers unit))"

text \<open>
  The multiplier table as the specification words it, in milliseconds, to compare
  \<open>multipliers\<close> with.
\<close>

fun spec_unit_ms :: "string \<Rightarrow> int" where
  "spec_unit_ms u =
     (if u = ''minutes'' then 60000
      else if u = ''hours'' then 3600000
      else if u = ''days'' then 86400000
      else 604800000)"

subsection \<open>Data of \<^verbatim>\<open>@/lib/wallpaper\<close>\<close>

record WallpaperSettings =
  api_key :: string
  collection_id :: string
  interval_value :: js_number
  interval_unit :: string
  auto_change :: bool

record ImageUrls =
  raw :: string
  full :: string
  regular :: string
  small :: string
  thumb :: string

record ImageUser =
  name :: string
  username :: string

record ImageLinks =
  html :: string
  download :: string
  download_location :: string

record UnsplashImage =
  image_id :: string
  description :: "string option"
  alt_description :: "string option"
  urls :: ImageUrls
  user :: ImageUser
  links :: ImageLinks

record CurrentWallpaper =
  image :: "UnsplashImage option"
  local_path :: "string option"
  set_at :: "string option"

subsection \<open>The hook's refs and what it acts on\<close>

text \<open>
  Everything a rotation can do to the outside is a call: a command sent to the backend,
  the observer callback \<^verbatim>\<open>onWallpaperChanged\<close>, or \<^verbatim>\<open>console.error\<close>. The calls
  are recorded in the order in which they are made.
\<close>

datatype call =
    GetSettings
  | FetchRandomImage
  | SetWallpaper string string
  | SaveCurrentWallpaper UnsplashImage string
  | TriggerDownload string
  | OnWallpaperChanged
  | ConsoleError js_error

text \<open>
  \<open>intervalRef\<close> and \<open>isRunningRef\<close> are the two refs of the hook
  (\<^verbatim>\<open>useRef<number | null>(null)\<close>, \<^verbatim>\<open>useRef(false)\<close>). \<open>timers\<close> are the
  intervals of the window that this hook created and that are still active, each with its
  handle and its delay (the callback is always \<^verbatim>\<open>changeWallpaper\<close>);
  \<open>next_handle\<close> is the handle the window gives to the next timer.
  \<open>current_wallpaper\<close> is the record the backend persists.
\<close>

record world =
  intervalRef :: "nat option"
  isRunningRef :: bool
  timers :: "(nat \<times> js_number) list"
  next_handle :: nat
  calls :: "call list"
  current_wallpaper :: CurrentWallpaper

type_synonym 'a js = "world \<Rightarrow> (js_error + 'a) \<times> world"

definition perform :: "call \<Rightarrow> world \<Rightarrow> world" where
  "perform c w = w\<lparr>calls := calls w @ [c]\<rparr>"

text \<open>
  The window's timers. \<^verbatim>\<open>setInterval\<close> returns a fresh handle, an integer greater
  than zero; \<^verbatim>\<open>clearInterval\<close> cancels the timer with the handle it is given.
\<close>

definition setInterval :: "js_number \<Rightarrow> world \<Rightarrow> nat \<times> world" where
  "setInterval delay w =
     (next_handle w,
      w\<lparr>timers := timers w @ [(next_handle w, delay)], next_handle := Suc (next_handle w)\<rparr>)"

definition clearInterval :: "nat \<Rightarrow> world \<Rightarrow> world" where
  "clearInterval h w = w\<lparr>timers := filter (\<lambda>t. fst t \<noteq> h) (timers w)\<rparr>"

subsection \<open>The collaborators\<close>

text \<open>
  Each collaborator is \<^verbatim>\<open>invoke("<command>", ...)\<close>: a promise that the backend
  resolves or rejects. How it settles is not decided by the hook, so it is a parameter:
  \<open>Inl\<close> a rejection, \<open>Inr\<close> the resolved value. Every collaborator is called at most
  once in a rotation, so one record holds the outcomes of a rotation.
  \<open>onWallpaperChanged\<close> is the optional observer: \<open>None\<close> when none is registered,
  otherwise whether the callback returns or throws.
\<close>

record outcomes =
  getSettings_result :: "js_error + WallpaperSettings"
  fetchRandomImage_result :: "js_error + UnsplashImage"
  setWallpaper_result :: "js_error + string"
  saveCurrentWallpaper_result :: "js_error + string"
  triggerDownload_result :: "js_error + unit"
  onWallpaperChanged :: "(js_error + unit) option"

definition getSettings :: "js_error + WallpaperSettings \<Rightarrow> WallpaperSettings js" where
  "getSettings r w = (r, perform GetSettings w)"

definition fetchRandomImage :: "js_error + UnsplashImage \<Rightarrow> UnsplashImage js" where
  "fetchRandomImage r w = (r, perform FetchRandomImage w)"

definition setWallpaper :: "js_error + string \<Rightarrow> string \<Rightarrow> string \<Rightarrow> string js" where
  "setWallpaper r imageUrl imageId w = (r, perform (SetWallpaper imageUrl imageId) w)"

text \<open>
  Modelled from the spec: the backend command \<^verbatim>\<open>save_current_wallpaper\<close>, which is
  not among the sources. The specification says that the store persists the current
  wallpaper (image descriptor, local path and timestamp) and that the record is
  overwritten wholesale by a successful save. The promise resolves to \<^verbatim>\<open>void\<close>; the
  \<open>Inr\<close> of the outcome carries the timestamp the backend writes.
\<close>

definition persist :: "UnsplashImage \<Rightarrow> string \<Rightarrow> string \<Rightarrow> world \<Rightarrow> world" where
  "persist img localPath stamp w =
     w\<lparr>current_wallpaper := \<lparr>image = Some img, local_path = Some localPath, set_at = Some stamp\<rparr>\<rparr>"

definition saveCurrentWallpaper :: "js_error + string \<Rightarrow> UnsplashImage \<Rightarrow> string \<Rightarrow> unit js" where
  "saveCurrentWallpaper r img localPath w =
     (case r of
        Inl e \<Rightarrow> (Inl e, perform (SaveCurrentWallpaper img localPath) w)
      | Inr stamp \<Rightarrow> (Inr (), persist img localPath stamp (perform (SaveCurrentWallpaper img localPath) w)))"

definition triggerDownload :: "js_error + unit \<Rightarrow> string \<Rightarrow> unit js" where
  "triggerDownload r downloadLocation w = (r, perform (TriggerDownload downloadLocation) w)"

definition console_error :: "js_error \<Rightarrow> unit js" where
  "console_error err w = (Inr (), perform (ConsoleError err) w)"

subsection \<open>Control flow\<close>

text \<open>
  \<^verbatim>\<open>await\<close> of a promise, followed by the rest of the block: a rejection is thrown
  and skips the rest.
\<close>

definition await :: "'a js \<Rightarrow> ('a \<Rightarrow> 'b js) \<Rightarrow> 'b js" where
  "await m k w = (case m w of (Inl e, w') \<Rightarrow> (Inl e, w') | (Inr v, w') \<Rightarrow> k v w')"

text \<open>
  \<^verbatim>\<open>try { body } catch (err) { handler } finally { finalizer }\<close>: the finalizer runs
  on every path; an error of the body is handed to the handler, and what the handler
  does (return or throw again) is the result.
\<close>

definition try_catch_finally ::
  "'a js \<Rightarrow> (js_error \<Rightarrow> 'a js) \<Rightarrow> (world \<Rightarrow> world) \<Rightarrow> 'a js" where
  "try_catch_finally body handler finalizer w =
     (case body w of
        (Inr v, w1) \<Rightarrow> (Inr v, finalizer w1)
      | (Inl e, w1) \<Rightarrow> (case handler e w1 of (r, w2) \<Rightarrow> (r, finalizer w2)))"

subsection \<open>changeWallpaper: one rotation\<close>

text \<open>
  \<^verbatim>\<open>
  const changeWallpaper = useCallback(async () => {
    if (isRunningRef.current) return;
    isRunningRef.current = true;
    try {
      const settings = await getSettings();
      if (!settings.api_key || !settings.auto_change) {
        return;
      }
      const image = await fetchRandomImage();
      const path = await setWallpaper(image.urls.full, image.id);
      await saveCurrentWallpaper(image, path);
      await triggerDownload(image.links.download_location);
      onWallpaperChanged?.();
    } catch (err) {
      console.error("Auto wallpaper change failed:", err);
    } finally {
      isRunningRef.current = false;
    }
  }, [onWallpaperChanged]);
  \<close>
  The result is how the promise of the call settles: \<open>Inr ()\<close> resolved, \<open>Inl\<close>
  rejected. \<^verbatim>\<open>!settings.api_key\<close> holds of a string exactly when it is empty.
\<close>

definition call_observer :: "(js_error + unit) option \<Rightarrow> unit js" where
  "call_observer cb w =
     (case cb of None \<Rightarrow> (Inr (), w) | Some r \<Rightarrow> (r, perform OnWallpaperChanged w))"

definition try_block :: "outcomes \<Rightarrow> unit js" where
  "try_block oc =
     await (getSettings (getSettings_result oc)) (\<lambda>settings.
       if api_key settings = [] \<or> \<not> auto_change settings then (\<lambda>w. (Inr (), w))
       else
         await (fetchRandomImage (fetchRandomImage_result oc)) (\<lambda>img.
         await (setWallpaper (setWallpaper_result oc) (full (urls img)) (image_id img)) (\<lambda>path.
         await (saveCurrentWallpaper (saveCurrentWallpaper_result oc) img path) (\<lambda>_.
         await (triggerDownload (triggerDownload_result oc) (download_location (links img))) (\<lambda>_.
         call_observer (onWallpaperChanged oc))))))"

definition changeWallpaper :: "outcomes \<Rightarrow> unit js" where
  "changeWallpaper oc w =
     (if isRunningRef w then (Inr (), w)
      else
        try_catch_finally (try_block oc) console_error (\<lambda>w. w\<lparr>isRunningRef := False\<rparr>)
          (w\<lparr>isRunningRef := True\<rparr>))"

subsection \<open>startAutoChange and stopAutoChange: the timer\<close>

text \<open>
  \<^verbatim>\<open>
  const startAutoChange = useCallback(async () => {
    const settings = await getSettings();
    if (!settings.auto_change || !settings.api_key) {
      return;
    }
    const intervalMs = getIntervalMs(
      settings.interval_value,
      settings.interval_unit as IntervalUnit
    );
    // Clear any existing interval
    if (intervalRef.current) {
      clearInterval(intervalRef.current);
    }
    // Set up the interval
    intervalRef.current = window.setInterval(changeWallpaper, intervalMs);
  }, [changeWallpaper]);

  const stopAutoChange = useCallback(() => {
    if (intervalRef.current) {
      clearInterval(intervalRef.current);
      intervalRef.current = null;
    }
  }, []);
  \<close>
  \<^verbatim>\<open>if (intervalRef.current)\<close> holds of a handle that is neither \<^verbatim>\<open>null\<close> nor 0.
  \<open>arm\<close> is the part of \<open>startAutoChange\<close> after its only \<^verbatim>\<open>await\<close>; no other
  code of the page runs in between its statements.
\<close>

definition clear_existing :: "world \<Rightarrow> world" where
  "clear_existing w =
     (case intervalRef w of
        None \<Rightarrow> w
      | Some h \<Rightarrow> if h \<noteq> 0 then clearInterval h w else w)"

definition arm :: "WallpaperSettings \<Rightarrow> unit js" where
  "arm settings w =
     (if \<not> auto_change settings \<or> api_key settings = [] then (Inr (), w)
      else
        case getIntervalMs (interval_value settings) (interval_unit settings) of
          Inl e \<Rightarrow> (Inl e, w)
        | Inr intervalMs \<Rightarrow>
            (case setInterval intervalMs (clear_existing w) of
               (h, w') \<Rightarrow> (Inr (), w'\<lparr>intervalRef := Some h\<rparr>)))"

definition startAutoChange :: "js_error + WallpaperSettings \<Rightarrow> unit js" where
  "startAutoChange r = await (getSettings r) arm"

definition stopAutoChange :: "world \<Rightarrow> world" where
  "stopAutoChange w =
     (case intervalRef w of
        None \<Rightarrow> w
      | Some h \<Rightarrow> if h \<noteq> 0 then (clearInterval h w)\<lparr>intervalRef := None\<rparr> else w)"

subsection \<open>Rotations that overlap: the hook as a transition system\<close>

text \<open>
  An \<^verbatim>\<open>async\<close> function runs without interruption up to its next \<^verbatim>\<open>await\<close>,
  where it is suspended until the awaited promise settles; other callbacks of the page
  run in between. \<open>pc\<close> says at which \<^verbatim>\<open>await\<close> a rotation is suspended, with the
  local variables that are live there. \<open>begin\<close> is \<open>changeWallpaper\<close> from its call to
  its first \<^verbatim>\<open>await\<close>, and \<open>resume\<close> runs a suspended rotation from the settled
  \<^verbatim>\<open>await\<close> to the next one, or to the end (\<open>None\<close>), through \<^verbatim>\<open>catch\<close> and
  \<^verbatim>\<open>finally\<close>.
\<close>

datatype pc =
    AtGetSettings
  | AtFetchRandomImage
  | AtSetWallpaper UnsplashImage
  | AtSaveCurrentWallpaper UnsplashImage string
  | AtTriggerDownload

definition finish :: "js_error + unit \<Rightarrow> world \<Rightarrow> world" where
  "finish r w =
     (case r of
        Inl err \<Rightarrow> (perform (ConsoleError err) w)\<lparr>isRunningRef := False\<rparr>
      | Inr _ \<Rightarrow> w\<lparr>isRunningRef := False\<rparr>)"

definition begin_rotation :: "world \<Rightarrow> pc option \<times> world" where
  "begin_rotation w =
     (if isRunningRef w then (None, w)
      else (Some AtGetSettings, perform GetSettings (w\<lparr>isRunningRef := True\<rparr>)))"

fun resume :: "outcomes \<Rightarrow> pc \<Rightarrow> world \<Rightarrow> pc option \<times> world" where
  "resume oc AtGetSettings w =
     (case getSettings_result oc of
        Inl e \<Rightarrow> (None, finish (Inl e) w)
      | Inr settings \<Rightarrow>
          if api_key settings = [] \<or> \<not> auto_change settings then (None, finish (Inr ()) w)
          else (Some AtFetchRandomImage, perform FetchRandomImage w))"
| "resume oc AtFetchRandomImage w =
     (case fetchRandomImage_result oc of
        Inl e \<Rightarrow> (None, finish (Inl e) w)
      | Inr img \<Rightarrow>
          (Some (AtSetWallpaper img), perform (SetWallpaper (full (urls img)) (image_id img)) w))"
| "resume oc (AtSetWallpaper img) w =
     (case setWallpaper_result oc of
        Inl e \<Rightarrow> (None, finish (Inl e) w)
      | Inr path \<Rightarrow>
          (Some (AtSaveCurrentWallpaper img path), perform (SaveCurrentWallpaper img path) w))"
| "resume oc (AtSaveCurrentWallpaper img path) w =
     (case saveCurrentWallpaper_result oc of
        Inl e \<Rightarrow> (None, finish (Inl e) w)
      | Inr stamp \<Rightarrow>
          (Some AtTriggerDownload,
           perform (TriggerDownload (download_location (links img))) (persist img path stamp w)))"
| "resume oc AtTriggerDownload w =
     (case triggerDownload_result oc of
        Inl e \<Rightarrow> (None, finish (Inl e) w)
      | Inr _ \<Rightarrow>
          (case onWallpaperChanged oc of
             None \<Rightarrow> (None, finish (Inr ()) w)
           | Some r \<Rightarrow> (None, finish r (perform OnWallpaperChanged w))))"

text \<open>A rotation run alone: resumed until it ends, at most \<open>n\<close> times.\<close>

fun run :: "outcomes \<Rightarrow> nat \<Rightarrow> pc option \<times> world \<Rightarrow> pc option \<times> world" where
  "run oc 0 s = s"
| "run oc (Suc n) (None, w) = (None, w)"
| "run oc (Suc n) (Some p, w) = run oc n (resume oc p w)"

text \<open>
  The hook with its suspended calls: \<open>rotations\<close> are the calls of \<open>changeWallpaper\<close>
  that are suspended at an \<^verbatim>\<open>await\<close>, each with the outcomes its collaborators will
  have; \<open>starts\<close> are the calls of \<open>startAutoChange\<close> that wait for their settings.
\<close>

record system =
  world :: world
  rotations :: "(pc \<times> outcomes) list"
  starts :: "(js_error + WallpaperSettings) list"

datatype event =
    CallChangeWallpaper outcomes
  | Tick nat outcomes
  | RotationSettles nat
  | CallStartAutoChange "js_error + WallpaperSettings"
  | StartSettles nat
  | CallStopAutoChange

definition remove_nth :: "nat \<Rightarrow> 'a list \<Rightarrow> 'a list" where
  "remove_nth i xs = take i xs @ drop (Suc i) xs"

definition invoke_rotation :: "outcomes \<Rightarrow> system \<Rightarrow> system" where
  "invoke_rotation oc s =
     (case begin_rotation (world s) of
        (None, w) \<Rightarrow> s\<lparr>world := w\<rparr>
      | (Some p, w) \<Rightarrow> s\<lparr>world := w, rotations := rotations s @ [(p, oc)]\<rparr>)"

text \<open>
  One event of the page: \<open>changeWallpaper\<close> is called directly; an active interval
  fires and calls it; the promise a suspended rotation awaits settles;
  \<open>startAutoChange\<close> is called; its settings arrive; \<open>stopAutoChange\<close> is called.
\<close>

fun step :: "event \<Rightarrow> system \<Rightarrow> system" where
  "step (CallChangeWallpaper oc) s = invoke_rotation oc s"
| "step (Tick h oc) s =
     (if h \<in> fst ` set (timers (world s)) then invoke_rotation oc s else s)"
| "step (RotationSettles i) s =
     (if i < length (rotations s) then
        (case rotations s ! i of
           (p, oc) \<Rightarrow>
             (case resume oc p (world s) of
                (None, w) \<Rightarrow> s\<lparr>world := w, rotations := remove_nth i (rotations s)\<rparr>
              | (Some p', w) \<Rightarrow> s\<lparr>world := w, rotations := (rotations s)[i := (p', oc)]\<rparr>))
      else s)"
| "step (CallStartAutoChange r) s =
     s\<lparr>world := perform GetSettings (world s), starts := starts s @ [r]\<rparr>"
| "step (StartSettles j) s =
     (if j < length (starts s) then
        (case starts s ! j of
           Inl e \<Rightarrow> s\<lparr>starts := remove_nth j (starts s)\<rparr>
         | Inr settings \<Rightarrow>
             s\<lparr>world := snd (arm settings (world s)), starts := remove_nth j (starts s)\<rparr>)
      else s)"
| "step (CallStopAutoChange) s = s\<lparr>world := stopAutoChange (world s)\<rparr>"

text \<open>
  The hook when the component mounts: the refs hold \<^verbatim>\<open>null\<close> and \<^verbatim>\<open>false\<close>, it has
  no timer, and no call is suspended.
\<close>

definition initial :: "world \<Rightarrow> bool" where
  "initial w \<longleftrightarrow>
     intervalRef w = None \<and> \<not> isRunningRef w \<and> timers w = [] \<and> 0 < next_handle w"

inductive reachable :: "system \<Rightarrow> bool" where
  reachable_init: "initial w \<Longrightarrow> reachable \<lparr>world = w, rotations = [], starts = []\<rparr>"
| reachable_step: "reachable s \<Longrightarrow> reachable (step e s)"

subsection \<open>Invariants of the transition system\<close>

text \<open>
  The guard is set exactly while a rotation is suspended, and at most one is. The hook
  has no timer when \<open>intervalRef\<close> is \<^verbatim>\<open>null\<close>, and otherwise exactly the timer
  whose handle \<open>intervalRef\<close> holds.
\<close>

definition guard_inv :: "system \<Rightarrow> bool" where
  "guard_inv s \<longleftrightarrow>
     length (rotations s) \<le> 1 \<and> isRunningRef (world s) = (rotations s \<noteq> [])"

definition timer_inv :: "world \<Rightarrow> bool" where
  "timer_inv w \<longleftrightarrow>
     0 < next_handle w \<and>
     (case intervalRef w of
        None \<Rightarrow> timers w = []
      | Some h \<Rightarrow> 0 < h \<and> h < next_handle w \<and> map fst (timers w) = [h])"

subsection \<open>Concrete inputs\<close>

text \<open>
  The scenario of the specification: the key \<^verbatim>\<open>"k"\<close>, no collection, one hour,
  rotation enabled; a freshly mounted hook; and the outcomes of a rotation in which
  every collaborator succeeds and an observer is registered, with variants in which one
  step fails.
\<close>

definition scenario_settings :: WallpaperSettings where
  "scenario_settings =
     \<lparr>api_key = ''k'', collection_id = [], interval_value = js_int 1,
      interval_unit = ''hours'', auto_change = True\<rparr>"

definition scenario_image :: UnsplashImage where
  "scenario_image =
     \<lparr>image_id = ''img1'', description = None, alt_description = None,
      urls = \<lparr>raw = ''r'', full = ''https://u/full'', regular = ''g'', small = ''s'', thumb = ''t''\<rparr>,
      user = \<lparr>name = ''Ann'', username = ''ann''\<rparr>,
      links = \<lparr>html = ''h'', download = ''d'', download_location = ''https://u/dl''\<rparr>\<rparr>"

definition mounted_world :: world where
  "mounted_world =
     \<lparr>intervalRef = None, isRunningRef = False, timers = [], next_handle = 1, calls = [],
      current_wallpaper = \<lparr>image = None, local_path = None, set_at = None\<rparr>\<rparr>"

definition mounted :: system where
  "mounted = \<lparr>world = mounted_world, rotations = [], starts = []\<rparr>"

definition all_succeed :: outcomes where
  "all_succeed =
     \<lparr>getSettings_result = Inr scenario_settings,
      fetchRandomImage_result = Inr scenario_image,
      setWallpaper_result = Inr ''/tmp/img1.jpg'',
      saveCurrentWallpaper_result = Inr ''2024-01-01T00:00:00Z'',
      triggerDownload_result = Inr (),
      onWallpaperChanged = Some (Inr ())\<rparr>"

definition fetch_fails :: outcomes where
  "fetch_fails = all_succeed\<lparr>fetchRandomImage_result := Inl (Thrown ''rate limit'')\<rparr>"

definition save_fails :: outcomes where
  "save_fails = all_succeed\<lparr>saveCurrentWallpaper_result := Inl (Thrown ''disk full'')\<rparr>"

definition notify_fails :: outcomes where
  "notify_fails = all_succeed\<lparr>triggerDownload_result := Inl (Thrown ''offline'')\<rparr>"

definition disabled :: outcomes where
  "disabled = all_succeed\<lparr>getSettings_result := Inr (scenario_settings\<lparr>auto_change := False\<rparr>)\<rparr>"

text \<open>
  The mounted hook after \<open>startAutoChange\<close> with the settings of the scenario, and
  then after the first tick of its timer, while the rotation waits for its settings.
  \<open>rearm_settings\<close> are the settings of a second \<open>startAutoChange\<close>: two days.
\<close>

definition armed :: system where
  "armed = step (StartSettles 0) (step (CallStartAutoChange (Inr scenario_settings)) mounted)"

definition rotating :: system where
  "rotating = step (Tick 1 all_succeed) armed"

definition rearm_settings :: WallpaperSettings where
  "rearm_settings = scenario_settings\<lparr>interval_value := js_int 2, interval_unit := ''days''\<rparr>"

section \<open>Properties\<close>

subsection \<open>Preservation of the invariants\<close>

lemma perform_simps:
  "calls (perform c w) = calls w @ [c]"
  "isRunningRef (perform c w) = isRunningRef w"
  "intervalRef (perform c w) = intervalRef w"
  "timers (perform c w) = timers w"
  "next_handle (perform c w) = next_handle w"
  "current_wallpaper (perform c w) = current_wallpaper w"
  by (simp_all add: perform_def)

lemma persist_simps:
  "calls (persist i p t w) = calls w"
  "isRunningRef (persist i p t w) = isRunningRef w"
  "intervalRef (persist i p t w) = intervalRef w"
  "timers (persist i p t w) = timers w"
  "next_handle (persist i p t w) = next_handle w"
  by (simp_all add: persist_def)

lemma finish_simps:
  "isRunningRef (finish r w) = False"
  "intervalRef (finish r w) = intervalRef w"
  "timers (finish r w) = timers w"
  "next_handle (finish r w) = next_handle w"
  by (simp_all add: finish_def perform_def split: sum.splits)

lemma resume_timers:
  "resume oc p w = (q, w') \<Longrightarrow>
     intervalRef w' = intervalRef w \<and> timers w' = timers w \<and> next_handle w' = next_handle w"
  by (cases p) (auto simp: perform_simps persist_simps finish_simps split: sum.splits option.splits if_splits)

lemma resume_guard:
  "resume oc p w = (q, w') \<Longrightarrow> isRunningRef w' = (isRunningRef w \<and> q \<noteq> None)"
  by (cases p) (auto simp: perform_simps persist_simps finish_simps split: sum.splits option.splits if_splits)

lemma begin_rotation_timers:
  "begin_rotation w = (q, w') \<Longrightarrow>
     intervalRef w' = intervalRef w \<and> timers w' = timers w \<and> next_handle w' = next_handle w"
  by (auto simp: begin_rotation_def perform_simps split: if_splits)

lemma timer_inv_arm: "timer_inv w \<Longrightarrow> timer_inv (snd (arm settings w))"
  by (auto simp: timer_inv_def arm_def getIntervalMs_def setInterval_def clear_existing_def
      clearInterval_def split: option.splits)

lemma timer_inv_stopAutoChange: "timer_inv w \<Longrightarrow> timer_inv (stopAutoChange w)"
  by (auto simp: timer_inv_def stopAutoChange_def clearInterval_def split: option.splits)

lemma timer_inv_cong:
  "timer_inv w \<Longrightarrow> intervalRef w' = intervalRef w \<Longrightarrow> timers w' = timers w \<Longrightarrow>
     next_handle w' = next_handle w \<Longrightarrow> timer_inv w'"
  by (auto simp: timer_inv_def split: option.splits)

lemma invoke_rotation_guard: "guard_inv s \<Longrightarrow> guard_inv (invoke_rotation oc s)"
  by (auto simp: guard_inv_def invoke_rotation_def begin_rotation_def perform_simps)

lemma invoke_rotation_timer: "timer_inv (world s) \<Longrightarrow> timer_inv (world (invoke_rotation oc s))"
  by (auto simp: invoke_rotation_def split: prod.splits option.splits
      dest!: begin_rotation_timers elim: timer_inv_cong)

lemma step_guard_inv: "guard_inv s \<Longrightarrow> guard_inv (step e s)"
proof (cases e)
  case (RotationSettles i)
  assume inv: "guard_inv s"
  show ?thesis
  proof (cases "i < length (rotations s)")
    case True
    with inv obtain p oc where rs: "rotations s = [(p, oc)]" and i: "i = 0"
      by (cases "rotations s") (auto simp: guard_inv_def)
    obtain q w' where r: "resume oc p (world s) = (q, w')"
      by (cases "resume oc p (world s)")
    from inv rs have "isRunningRef (world s)" by (simp add: guard_inv_def)
    with resume_guard [OF r] have "isRunningRef w' = (q \<noteq> None)" by simp
    with rs i r RotationSettles show ?thesis
      by (cases q) (simp_all add: guard_inv_def remove_nth_def)
  next
    case False
    with inv RotationSettles show ?thesis by simp
  qed
next
  case (StartSettles j)
  assume "guard_inv s"
  then show ?thesis using StartSettles
    by (auto simp: guard_inv_def arm_def getIntervalMs_def setInterval_def clear_existing_def
        clearInterval_def split: sum.splits option.splits)
next
  case CallStopAutoChange
  assume "guard_inv s"
  then show ?thesis using CallStopAutoChange
    by (auto simp: guard_inv_def stopAutoChange_def clearInterval_def split: option.splits)
next
  case (CallStartAutoChange r)
  assume "guard_inv s"
  then show ?thesis using CallStartAutoChange
    by (simp add: guard_inv_def perform_simps)
qed (simp_all add: invoke_rotation_guard)

lemma step_timer_inv: "timer_inv (world s) \<Longrightarrow> timer_inv (world (step e s))"
proof (cases e)
  case (RotationSettles i)
  assume inv: "timer_inv (world s)"
  show ?thesis
  proof (cases "i < length (rotations s)")
    case True
    obtain p oc where pi: "rotations s ! i = (p, oc)" by (cases "rotations s ! i")
    obtain q w' where r: "resume oc p (world s) = (q, w')"
      by (cases "resume oc p (world s)")
    from resume_timers [OF r] inv have "timer_inv w'"
      by (auto elim: timer_inv_cong)
    with True pi r RotationSettles show ?thesis
      by (cases q) simp_all
  next
    case False
    with inv RotationSettles show ?thesis by simp
  qed
next
  case (CallStartAutoChange r)
  assume "timer_inv (world s)"
  then show ?thesis using CallStartAutoChange
    by (auto elim: timer_inv_cong simp: perform_simps)
qed (auto simp: invoke_rotation_timer timer_inv_arm timer_inv_stopAutoChange split: sum.splits)

lemma reachable_inv: "reachable s \<Longrightarrow> guard_inv s \<and> timer_inv (world s)"
proof (induction rule: reachable.induct)
  case (reachable_init w)
  then show ?case by (simp add: initial_def guard_inv_def timer_inv_def)
next
  case (reachable_step s e)
  then show ?case by (simp add: step_guard_inv step_timer_inv)
qed


subsection \<open>Interval arithmetic\<close>

text \<open>Rounding leaves an integer of magnitude up to \<open>2 ^ 53\<close> as it is.\<close>

lemma round_half_even_int [simp]: "round_half_even (of_int n) = n"
  by (simp add: round_half_even_def)

lemma floor_log2_int: "0 < n \<Longrightarrow> floor_log2 (of_int n) = bitlen n - 1"
proof -
  assume n: "0 < n"
  then have b: "1 \<le> bitlen n"
    by (simp add: bitlen_alt_def)
  from bitlen_bounds [OF n] have "(2::int) ^ nat (bitlen n - 1) \<le> n" by simp
  then have "(of_int ((2::int) ^ nat (bitlen n - 1)) :: rat) \<le> of_int n"
    by (simp only: of_int_le_iff)
  with b have "(2::rat) powi (bitlen n - 1) \<le> of_int n"
    by (simp add: power_int_def)
  moreover have "bitlen 1 = 1"
    by (simp add: bitlen_alt_def)
  ultimately show ?thesis
    by (simp add: floor_log2_def)
qed

lemma round_double_int:
  assumes "0 \<le> n" and "n \<le> 2 ^ 53"
  shows "round_double s (of_int n) = Finite s (of_int n)"
proof (cases "n = 0")
  case True
  then show ?thesis by (simp add: round_double_def)
next
  case False
  with assms have n: "0 < n" by simp
  have small: "(of_int n :: rat) < 2 ^ 1024"
  proof -
    from assms(2) have "n < 2 ^ 1024" by simp
    then have "(of_int n :: rat) < of_int (2 ^ 1024)" by (simp only: of_int_less_iff)
    then show ?thesis by simp
  qed
  show ?thesis
  proof (cases "n < 2 ^ 53")
    case True
    with n have "bitlen n \<le> 53"
      by (simp add: bitlen_le_iff_power)
    moreover from n have "1 \<le> bitlen n"
      by (simp add: bitlen_alt_def)
    ultimately have "bitlen n - 1 - 52 = - int (nat (53 - bitlen n))"
      by simp
    then obtain k where k: "bitlen n - 1 - 52 = - int k" ..
    have q: "max (floor_log2 (of_int n) - 52) (- 1074) = - int k"
      using k \<open>1 \<le> bitlen n\<close> by (simp add: floor_log2_int [OF n])
    have "(of_int n :: rat) / 2 powi (- int k) = of_int (n * 2 ^ k)"
      by (simp add: power_int_def field_simps)
    then have "of_int (round_half_even (of_int n / 2 powi (- int k))) * (2::rat) powi (- int k) = of_int n"
      by (simp only: round_half_even_int) (simp add: power_int_def field_simps)
    with small n show ?thesis
      by (simp add: round_double_def q Let_def)
  next
    case False
    with assms have eq: "n = 2 ^ 53" by simp
    have "bitlen ((2::int) ^ 53) = 54"
      using bitlen_pow2 [of 1 53] by (simp add: bitlen_alt_def)
    then have q: "max (floor_log2 (of_int n) - 52) (- 1074) = 1"
      using floor_log2_int [OF n] by (simp add: eq)
    have "(of_int n :: rat) / 2 powi 1 = of_int (2 ^ 52)"
      by (simp add: eq)
    then have "of_int (round_half_even (of_int n / 2 powi 1)) * (2::rat) powi 1 = of_int n"
      by (simp only: round_half_even_int) (simp add: eq)
    with small n show ?thesis
      by (simp add: round_double_def q Let_def)
  qed
qed

lemma js_int_exact: "\<bar>n\<bar> \<le> 2 ^ 53 \<Longrightarrow> js_int n = Finite (n < 0) (of_int \<bar>n\<bar>)"
  using round_double_int [of "\<bar>n\<bar>" "n < 0"] by (simp add: js_int_def del: of_int_abs)

lemma js_mul_int:
  assumes "\<bar>a * b\<bar> \<le> 2 ^ 53" and "\<bar>a\<bar> \<le> 2 ^ 53" and "0 < b" and "b \<le> 2 ^ 53"
  shows "js_mul (js_int a) (js_int b) = js_int (a * b)"
proof -
  from assms(3) have "(a * b < 0) = (a < 0)"
    by (simp add: mult_less_0_iff)
  moreover have "(of_int \<bar>a\<bar> :: rat) * of_int \<bar>b\<bar> = of_int \<bar>a * b\<bar>"
    by (simp add: abs_mult)
  ultimately show ?thesis
    using assms round_double_int [of "\<bar>a * b\<bar>"]
    by (simp add: js_int_exact del: of_int_abs of_int_mult)
qed

lemma multipliers_dom: "dom multipliers = IntervalUnit"
  by (auto simp: multipliers_def IntervalUnit_def split: if_splits)

lemma multipliers_eq:
  assumes "unit \<in> IntervalUnit"
  shows "multipliers unit = Some (js_int (spec_unit_ms unit))"
proof -
  have a: "js_mul (js_int 60) (js_int 1000) = js_int 60000"
    using js_mul_int [of 60 1000] by simp
  have b: "js_mul (js_int 60) (js_int 60) = js_int 3600"
    "js_mul (js_int 3600) (js_int 1000) = js_int 3600000"
    using js_mul_int [of 60 60] js_mul_int [of 3600 1000] by simp_all
  have c: "js_mul (js_int 24) (js_int 60) = js_int 1440"
    "js_mul (js_int 1440) (js_int 60) = js_int 86400"
    "js_mul (js_int 86400) (js_int 1000) = js_int 86400000"
    using js_mul_int [of 24 60] js_mul_int [of 1440 60] js_mul_int [of 86400 1000] by simp_all
  have d: "js_mul (js_int 7) (js_int 24) = js_int 168"
    "js_mul (js_int 168) (js_int 60) = js_int 10080"
    "js_mul (js_int 10080) (js_int 60) = js_int 604800"
    "js_mul (js_int 604800) (js_int 1000) = js_int 604800000"
    using js_mul_int [of 7 24] js_mul_int [of 168 60] js_mul_int [of 10080 60]
      js_mul_int [of 604800 1000] by simp_all
  from assms show ?thesis
    by (auto simp: IntervalUnit_def multipliers_def a b c d)
qed

lemma spec_unit_ms_bounds: "0 < spec_unit_ms unit \<and> spec_unit_ms unit \<le> 2 ^ 53"
  by simp

lemma getIntervalMs_int:
  assumes "unit \<in> IntervalUnit" and "\<bar>v * spec_unit_ms unit\<bar> \<le> 2 ^ 53"
  shows "getIntervalMs (js_int v) unit = Inr (js_int (v * spec_unit_ms unit))"
proof -
  have pos: "0 < spec_unit_ms unit" and le: "spec_unit_ms unit \<le> 2 ^ 53"
    using spec_unit_ms_bounds [of unit] by blast+
  from pos have "\<bar>v\<bar> * 1 \<le> \<bar>v\<bar> * spec_unit_ms unit"
    by (intro mult_left_mono) simp_all
  with assms(2) pos have "\<bar>v\<bar> \<le> 2 ^ 53"
    by (simp add: abs_mult)
  with assms pos le show ?thesis
    by (simp only: getIntervalMs_def multipliers_eq js_times_def option.case js_mul_int)
qed

text \<open>
  C8, as stated: for every valid unit and every value the result is the value multiplied
  by the multiplier of the unit. The product is a product of doubles, and it is rounded:
  for the integer \<open>2 ^ 53 - 1\<close>, which is a double, and the unit \<^verbatim>\<open>"minutes"\<close> the
  result is 540431955284459454464, not 9007199254740991 times 60000.
\<close>

theorem getIntervalMs_rounds_counterexample:
  "''minutes'' \<in> IntervalUnit
   \<and> is_double (Finite False 9007199254740991)
   \<and> getIntervalMs (Finite False 9007199254740991) ''minutes''
       = Inr (Finite False 540431955284459454464)
   \<and> (9007199254740991 :: rat) * 60000 \<noteq> 540431955284459454464"
proof -
  have "''minutes'' \<in> IntervalUnit"
    by (simp add: IntervalUnit_def)
  moreover from this
  have "getIntervalMs (Finite False 9007199254740991) ''minutes''
          = Inr (js_mul (Finite False 9007199254740991) (js_int 60000))"
    by (simp add: getIntervalMs_def multipliers_eq js_times_def)
  moreover have "js_mul (Finite False 9007199254740991) (js_int 60000)
                   = Finite False 540431955284459454464"
    by code_simp
  moreover have "is_double (Finite False 9007199254740991)"
    using round_double_int [of 9007199254740991 False] by (simp add: is_double_def)
  ultimately show ?thesis by simp
qed

text \<open>
  C8, amended: for every valid unit and every value, \<open>getIntervalMs\<close> returns the
  product of doubles of the value and the fixed multiplier of the unit (minutes 60,000
  ms, hours 3,600,000 ms, days 86,400,000 ms, weeks 604,800,000 ms); for an integer value
  whose product with the multiplier is at most \<open>2 ^ 53\<close> in magnitude, that is exactly
  the value times the multiplier.
\<close>

theorem getIntervalMs_multiplier:
  assumes "unit \<in> IntervalUnit" and "\<bar>v * spec_unit_ms unit\<bar> \<le> 2 ^ 53"
  shows "getIntervalMs value unit = Inr (js_mul value (js_int (spec_unit_ms unit)))
    \<and> js_int (spec_unit_ms unit) = Finite False (of_int (spec_unit_ms unit))
    \<and> getIntervalMs (js_int v) unit
        = Inr (Finite (v < 0) (of_int \<bar>v\<bar> * of_int (spec_unit_ms unit)))"
proof -
  have pos: "0 < spec_unit_ms unit"
    by simp
  then have sign: "(v * spec_unit_ms unit < 0) = (v < 0)"
    by (simp add: mult_less_0_iff)
  from pos have mag: "(of_int \<bar>v * spec_unit_ms unit\<bar> :: rat) = of_int \<bar>v\<bar> * of_int (spec_unit_ms unit)"
    by (simp add: abs_mult)
  from assms(1) have "getIntervalMs value unit = Inr (js_mul value (js_int (spec_unit_ms unit)))"
    by (simp add: getIntervalMs_def multipliers_eq js_times_def)
  moreover have "js_int (spec_unit_ms unit) = Finite False (of_int (spec_unit_ms unit))"
    using js_int_exact [of "spec_unit_ms unit"] by simp
  moreover have "getIntervalMs (js_int v) unit
      = Inr (Finite (v < 0) (of_int \<bar>v\<bar> * of_int (spec_unit_ms unit)))"
    using getIntervalMs_int [OF assms] js_int_exact [OF assms(2)] sign mag
    by (simp only:)
  ultimately show ?thesis by simp
qed

theorem getIntervalMs_multiplier_witness:
  "''hours'' \<in> IntervalUnit
   \<and> getIntervalMs (js_int 1) ''hours'' = Inr (Finite False 3600000)
   \<and> getIntervalMs (js_int (- 2)) ''weeks'' = Inr (Finite True 1209600000)
   \<and> getIntervalMs (Infinity False) ''hours'' = Inr (Infinity False)"
proof -
  have h: "''hours'' \<in> IntervalUnit" and w: "''weeks'' \<in> IntervalUnit"
    by (simp_all add: IntervalUnit_def)
  have b1: "\<bar>1 * spec_unit_ms ''hours''\<bar> \<le> 2 ^ 53" and b2: "\<bar>- 2 * spec_unit_ms ''weeks''\<bar> \<le> 2 ^ 53"
    by simp_all
  from getIntervalMs_multiplier [OF h b1, of "Infinity False"]
  have "getIntervalMs (Infinity False) ''hours'' = Inr (js_mul (Infinity False) (js_int 3600000))"
    and "js_int 3600000 = Finite False 3600000"
    and "getIntervalMs (js_int 1) ''hours'' = Inr (Finite False 3600000)"
    by simp_all
  moreover from getIntervalMs_multiplier [OF w b2, THEN conjunct2, THEN conjunct2]
  have "getIntervalMs (js_int (- 2)) ''weeks'' = Inr (Finite True 1209600000)"
    by simp
  ultimately show ?thesis using h by simp
qed

text \<open>
  C2, as stated: a unit outside the enum makes \<open>getIntervalMs\<close> fail with an error.
  It does not: at the unit \<^verbatim>\<open>"seconds"\<close> the function returns \<^verbatim>\<open>NaN\<close>.
\<close>

theorem getIntervalMs_invalid_unit_counterexample:
  "''seconds'' \<notin> IntervalUnit \<and> getIntervalMs (js_int 5) ''seconds'' = Inr NaN
   \<and> \<not> isl (getIntervalMs (js_int 5) ''seconds'')"
  by (simp add: IntervalUnit_def getIntervalMs_def multipliers_def js_times_def)

text \<open>
  C2, amended: for every value and every unit outside the enum, \<open>getIntervalMs\<close>
  raises nothing and returns \<^verbatim>\<open>NaN\<close>; it never defaults to the multiplier of a
  valid unit.
\<close>

theorem getIntervalMs_invalid_unit:
  "unit \<notin> IntervalUnit \<Longrightarrow> getIntervalMs value unit = Inr NaN"
proof -
  assume "unit \<notin> IntervalUnit"
  then have "multipliers unit = None"
    using multipliers_dom by blast
  then show ?thesis
    by (simp add: getIntervalMs_def js_times_def)
qed

theorem getIntervalMs_invalid_unit_witness:
  "''seconds'' \<notin> IntervalUnit \<and> getIntervalMs (js_int 5) ''seconds'' = Inr NaN"
  using getIntervalMs_invalid_unit [of "''seconds''" "js_int 5"] by (simp add: IntervalUnit_def)

subsection \<open>A rotation run alone\<close>

lemma run_alone:
  "run oc (Suc (Suc (Suc (Suc (Suc 0))))) (begin_rotation w) = (None, snd (changeWallpaper oc w))"
  by (auto simp: changeWallpaper_def try_catch_finally_def try_block_def await_def
      begin_rotation_def getSettings_def fetchRandomImage_def setWallpaper_def
      saveCurrentWallpaper_def triggerDownload_def console_error_def perform_def
      call_observer_def finish_def persist_def
      split: sum.splits option.splits)

lemmas rotation_defs =
  changeWallpaper_def try_catch_finally_def try_block_def await_def getSettings_def
  fetchRandomImage_def setWallpaper_def saveCurrentWallpaper_def triggerDownload_def
  console_error_def call_observer_def perform_def persist_def

lemmas scenario_defs =
  mounted_def mounted_world_def all_succeed_def fetch_fails_def save_fails_def
  notify_fails_def disabled_def scenario_settings_def scenario_image_def

lemma reachable_mounted: "reachable mounted"
  unfolding mounted_def by (rule reachable_init) (simp add: initial_def mounted_world_def)

text \<open>
  C10. Whatever the collaborators and the observer do (each may reject or throw), the
  promise of \<open>changeWallpaper\<close> resolves: every error is caught and logged.
\<close>

theorem changeWallpaper_never_rejects: "fst (changeWallpaper oc w) = Inr ()"
  by (simp add: changeWallpaper_def try_catch_finally_def console_error_def
      split: prod.splits sum.splits)

text \<open>
  C9. A rotation reads the settings first; when rotation is disabled or the API key is
  empty, it ends there: \<open>getSettings\<close> is its only call (no fetch, apply, save or
  notify), and the guard is clear again.
\<close>

theorem disabled_rotation_aborts:
  assumes "getSettings_result oc = Inr settings"
    and "api_key settings = [] \<or> \<not> auto_change settings"
    and "\<not> isRunningRef w"
  shows "changeWallpaper oc w = (Inr (), w\<lparr>calls := calls w @ [GetSettings]\<rparr>)
    \<and> \<not> isRunningRef (snd (changeWallpaper oc w))"
  using assms
  by (auto simp: changeWallpaper_def try_catch_finally_def try_block_def await_def
      getSettings_def perform_def)

theorem disabled_rotation_aborts_witness:
  "changeWallpaper disabled mounted_world = (Inr (), mounted_world\<lparr>calls := [GetSettings]\<rparr>)
    \<and> \<not> isRunningRef (snd (changeWallpaper disabled mounted_world))"
  using disabled_rotation_aborts
    [of disabled "scenario_settings\<lparr>auto_change := False\<rparr>" mounted_world]
  by (simp add: scenario_defs)

text \<open>
  C5. When \<open>fetchRandomImage\<close> fails, the rotation ends with the persisted record
  unchanged, with neither \<open>setWallpaper\<close> nor \<open>triggerDownload\<close> (nor
  \<open>saveCurrentWallpaper\<close>) called, only the error logged, and the guard clear.
\<close>

theorem fetch_failure_aborts:
  assumes "getSettings_result oc = Inr settings"
    and "api_key settings \<noteq> []" and "auto_change settings"
    and "fetchRandomImage_result oc = Inl e"
    and "\<not> isRunningRef w"
  shows "snd (changeWallpaper oc w) =
           w\<lparr>calls := calls w @ [GetSettings, FetchRandomImage, ConsoleError e]\<rparr>
    \<and> current_wallpaper (snd (changeWallpaper oc w)) = current_wallpaper w
    \<and> \<not> isRunningRef (snd (changeWallpaper oc w))"
  using assms
  by (auto simp: changeWallpaper_def try_catch_finally_def try_block_def await_def
      getSettings_def fetchRandomImage_def console_error_def perform_def)

theorem fetch_failure_aborts_witness:
  "snd (changeWallpaper fetch_fails mounted_world) =
     mounted_world\<lparr>calls := [GetSettings, FetchRandomImage, ConsoleError (Thrown ''rate limit'')]\<rparr>
   \<and> current_wallpaper (snd (changeWallpaper fetch_fails mounted_world)) =
       \<lparr>image = None, local_path = None, set_at = None\<rparr>
   \<and> \<not> isRunningRef (snd (changeWallpaper fetch_fails mounted_world))"
  using fetch_failure_aborts
    [of fetch_fails scenario_settings "Thrown ''rate limit''" mounted_world]
  by (simp add: scenario_defs)

text \<open>
  C3, as stated: when \<open>saveCurrentWallpaper\<close> fails after \<open>setWallpaper\<close> succeeded,
  the rotation still calls \<open>triggerDownload\<close>. It does not: the rejection leaves the
  \<^verbatim>\<open>try\<close> block, and the calls of the rotation end with the logged error.
\<close>

theorem save_failure_counterexample:
  "setWallpaper_result save_fails = Inr ''/tmp/img1.jpg''
   \<and> saveCurrentWallpaper_result save_fails = Inl (Thrown ''disk full'')
   \<and> calls (snd (changeWallpaper save_fails mounted_world)) =
       [GetSettings, FetchRandomImage, SetWallpaper ''https://u/full'' ''img1'',
        SaveCurrentWallpaper scenario_image ''/tmp/img1.jpg'', ConsoleError (Thrown ''disk full'')]
   \<and> TriggerDownload ''https://u/dl'' \<notin> set (calls (snd (changeWallpaper save_fails mounted_world)))"
  by (simp add: rotation_defs scenario_defs)

text \<open>
  C3, amended: when \<open>saveCurrentWallpaper\<close> fails after \<open>setWallpaper\<close> succeeded,
  the rotation ends there. \<open>setWallpaper\<close> was called, the error is logged,
  neither \<open>triggerDownload\<close> nor the observer is called, the guard is clear, and the
  failure does not reach the caller: the promise of \<open>changeWallpaper\<close> resolves.
\<close>

theorem save_failure_aborts:
  assumes "getSettings_result oc = Inr settings"
    and "api_key settings \<noteq> []" and "auto_change settings"
    and "fetchRandomImage_result oc = Inr img"
    and "setWallpaper_result oc = Inr path"
    and "saveCurrentWallpaper_result oc = Inl e"
    and "\<not> isRunningRef w"
  shows "changeWallpaper oc w =
           (Inr (),
            w\<lparr>calls := calls w @
               [GetSettings, FetchRandomImage, SetWallpaper (full (urls img)) (image_id img),
                SaveCurrentWallpaper img path, ConsoleError e]\<rparr>)"
  using assms
  by (auto simp: changeWallpaper_def try_catch_finally_def try_block_def await_def
      getSettings_def fetchRandomImage_def setWallpaper_def saveCurrentWallpaper_def
      console_error_def perform_def)

theorem save_failure_aborts_witness:
  "changeWallpaper save_fails mounted_world =
     (Inr (),
      mounted_world\<lparr>calls :=
        [GetSettings, FetchRandomImage, SetWallpaper ''https://u/full'' ''img1'',
         SaveCurrentWallpaper scenario_image ''/tmp/img1.jpg'', ConsoleError (Thrown ''disk full'')]\<rparr>)"
  using save_failure_aborts
    [of save_fails scenario_settings scenario_image "''/tmp/img1.jpg''" "Thrown ''disk full''"
      mounted_world]
  by (simp add: scenario_defs)

text \<open>
  C4, as stated: the observer is called exactly once if and only if \<open>setWallpaper\<close>
  succeeded, also when a later step fails. It is not: when \<open>triggerDownload\<close> fails
  after \<open>setWallpaper\<close> and \<open>saveCurrentWallpaper\<close> succeeded, the observer is not
  called.
\<close>

theorem observer_counterexample:
  "setWallpaper_result notify_fails = Inr ''/tmp/img1.jpg''
   \<and> onWallpaperChanged notify_fails = Some (Inr ())
   \<and> SetWallpaper ''https://u/full'' ''img1'' \<in> set (calls (snd (changeWallpaper notify_fails mounted_world)))
   \<and> count_list (calls (snd (changeWallpaper notify_fails mounted_world))) OnWallpaperChanged = 0"
  by (simp add: rotation_defs scenario_defs)

text \<open>
  C4, amended: in a rotation the observer is called exactly once if the settings allow
  the rotation, all of \<open>fetchRandomImage\<close>, \<open>setWallpaper\<close>, \<open>saveCurrentWallpaper\<close>
  and \<open>triggerDownload\<close> succeeded and an observer is registered; otherwise, and so on
  every aborted rotation, it is not called.
\<close>

theorem observer_called_iff_all_steps_succeed:
  assumes "\<not> isRunningRef w"
  shows "count_list (calls (snd (changeWallpaper oc w))) OnWallpaperChanged =
           count_list (calls w) OnWallpaperChanged +
           (if (\<exists>settings. getSettings_result oc = Inr settings
                  \<and> api_key settings \<noteq> [] \<and> auto_change settings)
               \<and> \<not> isl (fetchRandomImage_result oc) \<and> \<not> isl (setWallpaper_result oc)
               \<and> \<not> isl (saveCurrentWallpaper_result oc) \<and> \<not> isl (triggerDownload_result oc)
               \<and> onWallpaperChanged oc \<noteq> None
            then 1 else 0)"
  using assms
  by (auto simp: rotation_defs split: sum.splits option.splits)

theorem observer_called_iff_all_steps_succeed_witness:
  "count_list (calls (snd (changeWallpaper all_succeed mounted_world))) OnWallpaperChanged = 1
   \<and> count_list (calls (snd (changeWallpaper save_fails mounted_world))) OnWallpaperChanged = 0"
  using observer_called_iff_all_steps_succeed [of mounted_world all_succeed]
    observer_called_iff_all_steps_succeed [of mounted_world save_fails]
  by (simp add: scenario_defs)

subsection \<open>Overlapping rotations and the guard\<close>

lemma reachable_armed: "reachable armed"
  unfolding armed_def by (intro reachable_step reachable_mounted)

lemma reachable_rotating: "reachable rotating"
  unfolding rotating_def by (intro reachable_step reachable_armed)

lemma armed_eq:
  "armed =
     \<lparr>world = mounted_world
        \<lparr>intervalRef := Some 1, timers := [(1, js_int 3600000)], next_handle := 2,
         calls := [GetSettings]\<rparr>,
      rotations = [], starts = []\<rparr>"
proof -
  have "getIntervalMs (js_int 1) ''hours'' = Inr (js_int 3600000)"
    using getIntervalMs_int [of "''hours''" 1] by (simp add: IntervalUnit_def)
  then show ?thesis
    by (simp add: armed_def scenario_defs perform_def remove_nth_def arm_def setInterval_def
        clear_existing_def)
qed

lemma rotating_eq:
  "rotating =
     \<lparr>world = mounted_world
        \<lparr>intervalRef := Some 1, isRunningRef := True, timers := [(1, js_int 3600000)],
         next_handle := 2, calls := [GetSettings, GetSettings]\<rparr>,
      rotations = [(AtGetSettings, all_succeed)], starts = []\<rparr>"
  by (simp add: rotating_def armed_eq invoke_rotation_def begin_rotation_def perform_def
      mounted_world_def)

text \<open>
  C1. While a rotation has not completed, a further call of \<open>changeWallpaper\<close>,
  direct or from a tick of the timer, returns at once and changes nothing: it makes no
  call (no settings read, fetch, apply, save or notify), and it is not queued. So at most
  one rotation is under way at any time.
\<close>

theorem overlapping_rotation_dropped:
  assumes "reachable s" and "rotations s \<noteq> []"
  shows "changeWallpaper oc (world s) = (Inr (), world s)
    \<and> step (CallChangeWallpaper oc) s = s
    \<and> step (Tick h oc) s = s
    \<and> length (rotations s) = 1"
proof -
  from assms(1) have inv: "guard_inv s"
    by (simp add: reachable_inv)
  with assms(2) have running: "isRunningRef (world s)"
    by (simp add: guard_inv_def)
  from inv assms(2) have "length (rotations s) = 1"
    by (cases "rotations s") (simp_all add: guard_inv_def)
  moreover from running have "invoke_rotation oc s = s"
    by (simp add: invoke_rotation_def begin_rotation_def)
  moreover from running have "changeWallpaper oc (world s) = (Inr (), world s)"
    by (simp add: changeWallpaper_def)
  ultimately show ?thesis by simp
qed

theorem overlapping_rotation_dropped_witness:
  "rotations rotating \<noteq> []
   \<and> changeWallpaper all_succeed (world rotating) = (Inr (), world rotating)
   \<and> step (CallChangeWallpaper all_succeed) rotating = rotating
   \<and> step (Tick 1 all_succeed) rotating = rotating
   \<and> length (rotations rotating) = 1"
proof -
  have "rotations rotating \<noteq> []"
    by (simp add: rotating_eq)
  with overlapping_rotation_dropped [OF reachable_rotating, of all_succeed 1]
  show ?thesis by simp
qed

text \<open>
  C6. The guard is set when a rotation begins, as its first collaborator call is made;
  every step of a rotation keeps it set until the rotation ends, and every end (success,
  a failure at any step, the settings check) clears it. So the guard is set exactly
  while a rotation is under way, and it is clear whenever none is.
\<close>

theorem guard_set_exactly_while_rotating:
  assumes "reachable s" and "\<not> isRunningRef w"
  shows "isRunningRef (world s) = (rotations s \<noteq> [])
    \<and> begin_rotation w = (Some AtGetSettings, perform GetSettings (w\<lparr>isRunningRef := True\<rparr>))
    \<and> isRunningRef (snd (begin_rotation w))
    \<and> isRunningRef (snd (resume oc p w')) = (isRunningRef w' \<and> fst (resume oc p w') \<noteq> None)
    \<and> \<not> isRunningRef (snd (changeWallpaper oc w))"
proof -
  from assms(1) have "isRunningRef (world s) = (rotations s \<noteq> [])"
    by (simp add: reachable_inv [unfolded guard_inv_def])
  moreover from assms(2)
  have "begin_rotation w = (Some AtGetSettings, perform GetSettings (w\<lparr>isRunningRef := True\<rparr>))"
    by (simp add: begin_rotation_def)
  moreover have "isRunningRef (snd (resume oc p w')) = (isRunningRef w' \<and> fst (resume oc p w') \<noteq> None)"
    using resume_guard [of oc p w' "fst (resume oc p w')" "snd (resume oc p w')"] by simp
  moreover from assms(2) have "\<not> isRunningRef (snd (changeWallpaper oc w))"
    by (simp add: changeWallpaper_def try_catch_finally_def split: prod.splits sum.splits)
  ultimately show ?thesis
    by (simp add: perform_simps)
qed

theorem guard_set_exactly_while_rotating_witness:
  "isRunningRef (world rotating) \<and> rotations rotating \<noteq> []
   \<and> \<not> isRunningRef mounted_world
   \<and> isRunningRef (snd (begin_rotation mounted_world))
   \<and> \<not> isRunningRef (snd (resume fetch_fails AtFetchRandomImage (world rotating)))
   \<and> \<not> isRunningRef (snd (changeWallpaper save_fails mounted_world))"
proof -
  have "\<not> isRunningRef mounted_world"
    by (simp add: mounted_world_def)
  from guard_set_exactly_while_rotating
    [OF reachable_rotating this,
      where oc = fetch_fails and p = AtFetchRandomImage and w' = "world rotating"]
    guard_set_exactly_while_rotating [OF reachable_rotating this, where oc = save_fails]
  show ?thesis
    by (simp add: rotating_eq mounted_world_def fetch_fails_def all_succeed_def)
qed

subsection \<open>The timer\<close>

lemma startAutoChange_alone:
  "starts s = [] \<Longrightarrow>
     world (step (StartSettles 0) (step (CallStartAutoChange (Inr st)) s)) =
       snd (startAutoChange (Inr st) (world s))"
  by (simp add: startAutoChange_def await_def getSettings_def)

lemma timers_le_one: "timer_inv w \<Longrightarrow> length (timers w) \<le> 1"
  by (cases "intervalRef w") (auto simp: timer_inv_def dest: arg_cong [where f = length])

text \<open>
  A call of \<open>startAutoChange\<close> whose settings arrive and are valid leaves exactly one
  timer, a new one, with the cadence of these settings.
\<close>

lemma settle_valid:
  assumes "reachable s" and "j < length (starts s)" and "starts s ! j = Inr st"
    and "auto_change st" and "api_key st \<noteq> []"
    and "getIntervalMs (interval_value st) (interval_unit st) = Inr d"
  shows "step (StartSettles j) s =
           s\<lparr>world := (world s)
                \<lparr>intervalRef := Some (next_handle (world s)),
                 timers := [(next_handle (world s), d)],
                 next_handle := Suc (next_handle (world s))\<rparr>,
             starts := remove_nth j (starts s)\<rparr>"
proof -
  from assms(1) have "timer_inv (world s)"
    by (simp add: reachable_inv)
  then have "snd (arm st (world s)) =
      (world s)\<lparr>intervalRef := Some (next_handle (world s)),
                 timers := [(next_handle (world s), d)],
                 next_handle := Suc (next_handle (world s))\<rparr>"
    using assms(4,5,6)
    by (auto simp: arm_def setInterval_def clear_existing_def clearInterval_def timer_inv_def
        split: option.splits)
  with assms(2,3) show ?thesis by simp
qed

lemma remove_nth_append:
  "remove_nth (length xs) (xs @ [a]) = xs"
  "remove_nth (length xs) (xs @ [a, b]) = xs @ [b]"
  "remove_nth (Suc (length xs)) (xs @ [a, b]) = xs @ [a]"
  by (simp_all add: remove_nth_def)

lemma two_starts:
  assumes r: "reachable s"
    and v1: "auto_change s1" "api_key s1 \<noteq> []"
    and v2: "auto_change s2" "api_key s2 \<noteq> []"
    and c1: "getIntervalMs (interval_value s1) (interval_unit s1) = Inr cadence1"
    and c2: "getIntervalMs (interval_value s2) (interval_unit s2) = Inr cadence2"
    and n: "n = length (starts s)" and h: "h = next_handle (world s)"
    and first: "first = step (StartSettles n) (step (CallStartAutoChange (Inr s1)) s)"
    and both: "both = step (CallStartAutoChange (Inr s2)) (step (CallStartAutoChange (Inr s1)) s)"
  shows "timers (world first) = [(h, cadence1)]"
    and "timers (world (step (StartSettles n) (step (CallStartAutoChange (Inr s2)) first)))
           = [(Suc h, cadence2)]"
    and "timers (world (step (StartSettles (Suc n)) both)) = [(h, cadence2)]"
    and "timers (world (step (StartSettles n) (step (StartSettles n) both))) = [(Suc h, cadence2)]"
    and "timers (world (step (StartSettles n) (step (StartSettles (Suc n)) both)))
           = [(Suc h, cadence1)]"
proof -
  have one1: "n < length (starts s @ [Inr s1])" "(starts s @ [Inr s1]) ! n = Inr s1"
    "remove_nth n (starts s @ [Inr s1]) = starts s"
    and one2: "n < length (starts s @ [Inr s2])" "(starts s @ [Inr s2]) ! n = Inr s2"
    and two: "n < length (starts s @ [Inr s1, Inr s2])"
    "Suc n < length (starts s @ [Inr s1, Inr s2])"
    "(starts s @ [Inr s1, Inr s2]) ! n = Inr s1"
    "(starts s @ [Inr s1, Inr s2]) ! Suc n = Inr s2"
    "remove_nth n (starts s @ [Inr s1, Inr s2]) = starts s @ [Inr s2]"
    "remove_nth (Suc n) (starts s @ [Inr s1, Inr s2]) = starts s @ [Inr s1]"
    by (simp_all add: n remove_nth_append nth_append)
  let ?c1 = "step (CallStartAutoChange (Inr s1)) s"
  have rc1: "reachable ?c1" using r by (rule reachable_step)
  have sc1: "starts ?c1 = starts s @ [Inr s1]" "next_handle (world ?c1) = h"
    by (simp_all add: h perform_simps)
  have f: "first = ?c1\<lparr>world := (world ?c1)
      \<lparr>intervalRef := Some h, timers := [(h, cadence1)], next_handle := Suc h\<rparr>,
      starts := starts s\<rparr>"
    unfolding first
    by (subst settle_valid [OF rc1 _ _ v1 c1])
      (simp_all only: sc1 one1)
  show "timers (world first) = [(h, cadence1)]"
    by (simp add: f)
  have rf: "reachable first" unfolding first using rc1 by (rule reachable_step)
  let ?c2 = "step (CallStartAutoChange (Inr s2)) first"
  have rc2: "reachable ?c2" using rf by (rule reachable_step)
  have sc2: "starts ?c2 = starts s @ [Inr s2]" "next_handle (world ?c2) = Suc h"
    by (simp_all add: f perform_simps)
  have "timers (world (step (StartSettles n) ?c2)) = [(next_handle (world ?c2), cadence2)]"
    by (subst settle_valid [OF rc2 _ _ v2 c2]) (simp_all only: sc2 one2, simp)
  then show "timers (world (step (StartSettles n) ?c2)) = [(Suc h, cadence2)]"
    by (simp only: sc2)
  have rb: "reachable both" unfolding both using rc1 by (rule reachable_step)
  have sb: "starts both = starts s @ [Inr s1, Inr s2]" "next_handle (world both) = h"
    by (simp_all add: both h perform_simps)
  let ?b1 = "step (StartSettles n) both"
  have eb1: "?b1 = both\<lparr>world := (world both)
      \<lparr>intervalRef := Some h, timers := [(h, cadence1)], next_handle := Suc h\<rparr>,
      starts := starts s @ [Inr s2]\<rparr>"
    by (subst settle_valid [OF rb _ _ v1 c1]) (simp_all only: sb two)
  have b1: "starts ?b1 = starts s @ [Inr s2]" "next_handle (world ?b1) = Suc h"
    by (simp_all add: eb1 del: step.simps)
  have rb1: "reachable ?b1" using rb by (rule reachable_step)
  have "timers (world (step (StartSettles n) ?b1)) = [(next_handle (world ?b1), cadence2)]"
    by (subst settle_valid [OF rb1 _ _ v2 c2]) (simp_all only: b1 one2, simp)
  then show "timers (world (step (StartSettles n) ?b1)) = [(Suc h, cadence2)]"
    by (simp only: b1)
  let ?b2 = "step (StartSettles (Suc n)) both"
  have eb2: "?b2 = both\<lparr>world := (world both)
      \<lparr>intervalRef := Some h, timers := [(h, cadence2)], next_handle := Suc h\<rparr>,
      starts := starts s @ [Inr s1]\<rparr>"
    by (subst settle_valid [OF rb _ _ v2 c2]) (simp_all only: sb two)
  have b2: "starts ?b2 = starts s @ [Inr s1]" "next_handle (world ?b2) = Suc h"
    "timers (world ?b2) = [(h, cadence2)]"
    by (simp_all add: eb2 del: step.simps)
  show "timers (world ?b2) = [(h, cadence2)]"
    by (rule b2)
  have rb2: "reachable ?b2" using rb by (rule reachable_step)
  have "timers (world (step (StartSettles n) ?b2)) = [(next_handle (world ?b2), cadence1)]"
    by (subst settle_valid [OF rb2 _ _ v1 c1]) (simp_all only: b2 one1, simp)
  then show "timers (world (step (StartSettles n) ?b2)) = [(Suc h, cadence1)]"
    by (simp only: b2)
qed

lemma scenario_cadences:
  "getIntervalMs (interval_value scenario_settings) (interval_unit scenario_settings)
     = Inr (js_int 3600000)"
  "getIntervalMs (interval_value rearm_settings) (interval_unit rearm_settings)
     = Inr (js_int 172800000)"
  using getIntervalMs_int [of "''hours''" 1] getIntervalMs_int [of "''days''" 2]
  by (simp_all add: scenario_settings_def rearm_settings_def IntervalUnit_def)

lemma scenario_valid:
  "auto_change scenario_settings" "api_key scenario_settings \<noteq> []"
  "auto_change rearm_settings" "api_key rearm_settings \<noteq> []"
  by (simp_all add: rearm_settings_def scenario_settings_def)

text \<open>
  C7, as stated: after two successive calls of \<open>startAutoChange\<close> with valid settings
  the one timer has the cadence of the second call. Not when the settings of the second
  call arrive first: \<open>startAutoChange\<close> waits for \<open>getSettings\<close>, the hook does not
  wait for \<open>startAutoChange\<close>, and the call that settles last sets the timer. Here the
  second call asks for two days and the timer is left at one hour.
\<close>

theorem rearm_order_counterexample:
  "timers (world (step (StartSettles 0) (step (StartSettles 1)
      (step (CallStartAutoChange (Inr rearm_settings))
        (step (CallStartAutoChange (Inr scenario_settings)) mounted)))))
     = [(2, js_int 3600000)]
   \<and> getIntervalMs (interval_value rearm_settings) (interval_unit rearm_settings)
       = Inr (js_int 172800000)
   \<and> js_int 3600000 \<noteq> js_int 172800000"
proof -
  have n: "0 = length (starts mounted)" and h: "1 = next_handle (world mounted)"
    by (simp_all add: mounted_def mounted_world_def)
  have "js_int 3600000 \<noteq> js_int 172800000"
    using js_int_exact [of 3600000] js_int_exact [of 172800000] by simp
  with two_starts(5) [OF reachable_mounted scenario_valid(1,2) scenario_valid(3,4)
      scenario_cadences n h refl refl] scenario_cadences(2)
  show ?thesis by simp
qed

text \<open>
  C7, amended: of two successive calls of \<open>startAutoChange\<close> with valid settings, the
  call whose settings arrive first creates a timer, and the call whose settings arrive
  last cancels it and leaves exactly one active timer, with the cadence computed from
  the settings of that last call: the second call when the calls do not overlap or settle
  in the order of the calls, the first call when the second settles first. The hook
  never has two active timers.
\<close>

theorem rearm_leaves_one_timer:
  assumes "reachable s"
    and "auto_change s1" and "api_key s1 \<noteq> []"
    and "auto_change s2" and "api_key s2 \<noteq> []"
    and "getIntervalMs (interval_value s1) (interval_unit s1) = Inr cadence1"
    and "getIntervalMs (interval_value s2) (interval_unit s2) = Inr cadence2"
    and "n = length (starts s)" and "h = next_handle (world s)"
    and "first = step (StartSettles n) (step (CallStartAutoChange (Inr s1)) s)"
    and "both = step (CallStartAutoChange (Inr s2)) (step (CallStartAutoChange (Inr s1)) s)"
  shows "timers (world first) = [(h, cadence1)]
    \<and> timers (world (step (StartSettles n) (step (CallStartAutoChange (Inr s2)) first)))
        = [(Suc h, cadence2)]
    \<and> timers (world (step (StartSettles n) (step (StartSettles n) both))) = [(Suc h, cadence2)]
    \<and> timers (world (step (StartSettles (Suc n)) both)) = [(h, cadence2)]
    \<and> timers (world (step (StartSettles n) (step (StartSettles (Suc n)) both)))
        = [(Suc h, cadence1)]
    \<and> length (timers (world s)) \<le> 1"
proof -
  have "length (timers (world s)) \<le> 1"
    using reachable_inv [OF assms(1)] timers_le_one by blast
  with two_starts [OF assms] show ?thesis by simp
qed

theorem rearm_leaves_one_timer_witness:
  "timers (world armed) = [(1, js_int 3600000)]
   \<and> timers (world (step (StartSettles 0) (step (CallStartAutoChange (Inr rearm_settings)) armed)))
       = [(2, js_int 172800000)]
   \<and> timers (world (step (StartSettles 0) (step (StartSettles 0)
        (step (CallStartAutoChange (Inr rearm_settings))
          (step (CallStartAutoChange (Inr scenario_settings)) mounted)))))
       = [(2, js_int 172800000)]
   \<and> length (timers (world mounted)) \<le> 1"
proof -
  have n: "0 = length (starts mounted)" and h: "1 = next_handle (world mounted)"
    by (simp_all add: mounted_def mounted_world_def)
  from rearm_leaves_one_timer [OF reachable_mounted scenario_valid(1,2) scenario_valid(3,4)
      scenario_cadences n h refl refl]
  show ?thesis
    by (simp add: armed_def)
qed

end
